theory Spec2Isabelle
  imports Complex_Main "HOL-Library.AList"
begin

section \<open>JavaScript numbers as the guard uses them\<close>

text \<open>
  The role guard (\<^verbatim>\<open>src/guards/role.guard.ts\<close>) computes with JavaScript numbers:
  \<^verbatim>\<open>Math.min(...rolesLevel)\<close>, \<^verbatim>\<open>Number(cachedRole)\<close> and the operator \<^verbatim>\<open><\<close>.
  A number is an IEEE double: not-a-number, an infinity, or a finite value, which is a
  rational. Negative zero is identified with zero (the guard only compares).
\<close>

datatype jsnum = NaN | NegInf | Fin rat | PosInf

text \<open>The operator \<^verbatim>\<open><\<close> on two numbers: false as soon as one side is NaN.\<close>

fun js_lt :: "jsnum \<Rightarrow> jsnum \<Rightarrow> bool" where
  "js_lt NaN _ = False"
| "js_lt _ NaN = False"
| "js_lt (Fin a) (Fin b) = (a < b)"
| "js_lt NegInf NegInf = False"
| "js_lt NegInf _ = True"
| "js_lt PosInf _ = False"
| "js_lt (Fin _) PosInf = True"
| "js_lt (Fin _) NegInf = False"

text \<open>
  \<^verbatim>\<open>Math.min(...xs)\<close>: \<^verbatim>\<open>+Infinity\<close> for no argument, NaN as soon as one argument is
  NaN, the smallest argument otherwise. The required levels are integers.
\<close>

fun js_min2 :: "jsnum \<Rightarrow> jsnum \<Rightarrow> jsnum" where
  "js_min2 NaN _ = NaN"
| "js_min2 _ NaN = NaN"
| "js_min2 a b = (if js_lt b a then b else a)"

definition Math_min :: "int list \<Rightarrow> jsnum" where
  "Math_min xs = foldl js_min2 PosInf (map (\<lambda>x. Fin (of_int x)) xs)"

subsection \<open>Rounding a rational to the nearest double\<close>

fun bitlen :: "nat \<Rightarrow> nat" where
  "bitlen n = (if n = 0 then 0 else Suc (bitlen (n div 2)))"

declare bitlen.simps [simp del]

definition pow2 :: "int \<Rightarrow> rat" where
  "pow2 e = (if 0 \<le> e then 2 ^ nat e else 1 / 2 ^ nat (- e))"

text \<open>For \<open>q > 0\<close>, \<open>ilog2 q\<close> is the exponent \<open>d\<close> with \<open>2^d \<le> q < 2^(d+1)\<close>.\<close>

definition ilog2 :: "rat \<Rightarrow> int" where
  "ilog2 q = (case quotient_of q of (a, b) \<Rightarrow>
     let d = int (bitlen (nat a)) - int (bitlen (nat b))
     in if pow2 d \<le> q then d else d - 1)"

definition round_half_even :: "rat \<Rightarrow> int" where
  "round_half_even x = (let f = \<lfloor>x\<rfloor>; r = x - of_int f
     in if r < 1 / 2 then f else if 1 / 2 < r then f + 1
        else if even f then f else f + 1)"

text \<open>
  Round to nearest, ties to even, with 53 bits of significand, the least exponent
  \<open>-1074\<close> (subnormals) and overflow to an infinity from \<open>2^1024\<close> on.
\<close>

definition to_double :: "rat \<Rightarrow> jsnum" where
  "to_double q = (if q = 0 then Fin 0 else
     let a = \<bar>q\<bar>;
         e = max (ilog2 a - 52) (- 1074);
         m = round_half_even (a / pow2 e)
     in if 971 < e \<or> (e = 971 \<and> 9007199254740992 \<le> m)
        then (if 0 < q then PosInf else NegInf)
        else Fin (sgn q * (of_int m * pow2 e)))"

subsection \<open>\<^verbatim>\<open>Number\<close> applied to a string\<close>

text \<open>
  Strings are lists of code units below 256. The white space that \<^verbatim>\<open>Number\<close> strips
  is, in that range, TAB, LF, VT, FF, CR, SP and NBSP.
\<close>

definition StrWhiteSpaceChar :: "char \<Rightarrow> bool" where
  "StrWhiteSpaceChar c =
     (c \<in> set [CHR 0x09, CHR 0x0A, CHR 0x0B, CHR 0x0C, CHR 0x0D, CHR 0x20, CHR 0xA0])"

definition trim :: "string \<Rightarrow> string" where
  "trim s = rev (dropWhile StrWhiteSpaceChar (rev (dropWhile StrWhiteSpaceChar s)))"

definition hex_val :: "char \<Rightarrow> nat option" where
  "hex_val c = map_of
     [(CHR ''0'', 0), (CHR ''1'', 1), (CHR ''2'', 2), (CHR ''3'', 3), (CHR ''4'', 4),
      (CHR ''5'', 5), (CHR ''6'', 6), (CHR ''7'', 7), (CHR ''8'', 8), (CHR ''9'', 9),
      (CHR ''a'', 10), (CHR ''b'', 11), (CHR ''c'', 12), (CHR ''d'', 13), (CHR ''e'', 14),
      (CHR ''f'', 15), (CHR ''A'', 10), (CHR ''B'', 11), (CHR ''C'', 12), (CHR ''D'', 13),
      (CHR ''E'', 14), (CHR ''F'', 15)] c"

definition digit_in :: "nat \<Rightarrow> char \<Rightarrow> nat option" where
  "digit_in b c =
     (case hex_val c of None \<Rightarrow> None | Some d \<Rightarrow> if d < b then Some d else None)"

definition is_dec :: "char \<Rightarrow> bool" where
  "is_dec c = (digit_in 10 c \<noteq> None)"

text \<open>The value of a string of digits in base \<open>b\<close>; \<open>None\<close> if a character is no digit.\<close>

fun digits_val :: "nat \<Rightarrow> string \<Rightarrow> nat \<Rightarrow> nat option" where
  "digits_val b [] acc = Some acc"
| "digits_val b (c # cs) acc =
     (case digit_in b c of None \<Rightarrow> None | Some d \<Rightarrow> digits_val b cs (b * acc + d))"

definition DecimalDigits :: "string \<Rightarrow> nat option" where
  "DecimalDigits ds = (if ds = [] then None else digits_val 10 ds 0)"

text \<open>The exponent part: nothing, or \<^verbatim>\<open>e\<close>/\<^verbatim>\<open>E\<close>, an optional sign and digits.\<close>

definition ExponentPart :: "string \<Rightarrow> int option" where
  "ExponentPart r =
     (case r of
        [] \<Rightarrow> Some 0
      | c # ds \<Rightarrow>
          if c = CHR ''e'' \<or> c = CHR ''E'' then
            (case ds of
               [] \<Rightarrow> None
             | s # ds' \<Rightarrow>
                 if s = CHR ''+'' then map_option int (DecimalDigits ds')
                 else if s = CHR ''-'' then map_option (\<lambda>n. - int n) (DecimalDigits ds')
                 else map_option int (DecimalDigits ds))
          else None)"

text \<open>
  An unsigned decimal literal other than \<^verbatim>\<open>Infinity\<close>: digits, an optional point and
  digits (one of the two digit runs may be empty, not both), an optional exponent. The
  result is the exact value of the literal.
\<close>

definition StrUnsignedDecimalLiteral :: "string \<Rightarrow> rat option" where
  "StrUnsignedDecimalLiteral u =
     (let ip = takeWhile is_dec u;
          r1 = dropWhile is_dec u;
          (fp, r2) = (case r1 of
                        [] \<Rightarrow> ([], [])
                      | c # r \<Rightarrow> if c = CHR ''.''
                                 then (takeWhile is_dec r, dropWhile is_dec r)
                                 else ([], r1))
      in if ip = [] \<and> fp = [] then None
         else (case (digits_val 10 (ip @ fp) 0, ExponentPart r2) of
                 (Some m, Some x) \<Rightarrow>
                   (let k = x - int (length fp)
                    in Some (if 0 \<le> k then of_nat m * 10 ^ nat k
                             else of_nat m / 10 ^ nat (- k)))
               | _ \<Rightarrow> None))"

definition StrDecimalLiteral :: "string \<Rightarrow> jsnum" where
  "StrDecimalLiteral t =
     (let neg = (t \<noteq> [] \<and> hd t = CHR ''-'');
          u = (if t \<noteq> [] \<and> (hd t = CHR ''+'' \<or> hd t = CHR ''-'') then tl t else t)
      in if u = ''Infinity'' then (if neg then NegInf else PosInf)
         else (case StrUnsignedDecimalLiteral u of
                 None \<Rightarrow> NaN
               | Some q \<Rightarrow> to_double (if neg then - q else q)))"

text \<open>\<^verbatim>\<open>0x\<close>, \<^verbatim>\<open>0o\<close> and \<^verbatim>\<open>0b\<close> literals: no sign, at least one digit.\<close>

definition NonDecimalIntegerLiteral :: "string \<Rightarrow> nat option" where
  "NonDecimalIntegerLiteral t =
     (case t of
        z # p # ds \<Rightarrow>
          if z \<noteq> CHR ''0'' \<or> ds = [] then None
          else if p = CHR ''x'' \<or> p = CHR ''X'' then digits_val 16 ds 0
          else if p = CHR ''o'' \<or> p = CHR ''O'' then digits_val 8 ds 0
          else if p = CHR ''b'' \<or> p = CHR ''B'' then digits_val 2 ds 0
          else None
      | _ \<Rightarrow> None)"

definition StringToNumber :: "string \<Rightarrow> jsnum" where
  "StringToNumber s =
     (let t = trim s
      in if t = [] then Fin 0
         else (case NonDecimalIntegerLiteral t of
                 Some n \<Rightarrow> to_double (of_nat n)
               | None \<Rightarrow> StrDecimalLiteral t))"

subsection \<open>The values of \<^verbatim>\<open>cachedRole\<close>\<close>

text \<open>
  \<^verbatim>\<open>let cachedRole: string | number = await this.redisService.client.get(cacheKey)\<close>:
  the client answers a string or \<^verbatim>\<open>null\<close>; on a miss the variable is overwritten with
  the number \<^verbatim>\<open>auth.roleLevel\<close>, an integer.
\<close>

datatype jsval = JNull | JString string | JNumber int

text \<open>The operator \<^verbatim>\<open>!\<close>: true on \<^verbatim>\<open>null\<close>, the empty string and zero.\<close>

fun js_not :: "jsval \<Rightarrow> bool" where
  "js_not JNull = True"
| "js_not (JString s) = (s = [])"
| "js_not (JNumber n) = (n = 0)"

fun Number :: "jsval \<Rightarrow> jsnum" where
  "Number JNull = Fin 0"
| "Number (JString s) = StringToNumber s"
| "Number (JNumber n) = Fin (of_int n)"

text \<open>The decimal text of an integer, as \<^verbatim>\<open>String(n)\<close> gives it below \<open>10^21\<close>.\<close>

definition digit_char :: "nat \<Rightarrow> char" where
  "digit_char d = ''0123456789'' ! d"

fun nat_text :: "nat \<Rightarrow> string" where
  "nat_text n = (if n < 10 then [digit_char n] else nat_text (n div 10) @ [digit_char (n mod 10)])"

declare nat_text.simps [simp del]

definition int_text :: "int \<Rightarrow> string" where
  "int_text n = (if n < 0 then CHR ''-'' # nat_text (nat (- n)) else nat_text (nat n))"

section \<open>The collaborators of the guard\<close>

text \<open>
  A row of the \<^verbatim>\<open>authCode\<close> table, with the three columns the guard uses. The field
  \<^verbatim>\<open>id\<close> is named \<open>id'\<close> here.
\<close>

record AuthCode =
  id' :: string
  authCode :: string
  roleLevel :: int

text \<open>Every call to a collaborator is recorded, in order.\<close>

datatype event =
    RedisGet string
  | ConsoleLog jsval
  | FindUnique string string
  | RedisSet string string

record world =
  redis :: "(string \<times> string) list"
  authCodes :: "AuthCode list"
  trace :: "event list"

text \<open>
  Modelled from the spec: \<^verbatim>\<open>RedisService\<close> (\<^verbatim>\<open>src/cache/redis.service\<close>) and its
  \<^verbatim>\<open>client\<close> are not among the sources. The spec gives the cache the operations
  \<^verbatim>\<open>get(key) \<rightarrow> value | absent\<close> and \<^verbatim>\<open>set(key, value) \<rightarrow> ok\<close>, with no expiry, and
  says that the role level written as a number is read back as a string; the canonical
  serialization it names is integer text.
\<close>

definition client_get :: "string \<Rightarrow> world \<Rightarrow> jsval \<times> world" where
  "client_get key w =
     ((case map_of (redis w) key of None \<Rightarrow> JNull | Some s \<Rightarrow> JString s),
      w\<lparr>trace := trace w @ [RedisGet key]\<rparr>)"

definition RedisService_set :: "string \<Rightarrow> int \<Rightarrow> world \<Rightarrow> world" where
  "RedisService_set key n w =
     w\<lparr>redis := AList.update key (int_text n) (redis w),
       trace := trace w @ [RedisSet key (int_text n)]\<rparr>"

text \<open>\<^verbatim>\<open>console.log(cachedRole)\<close>: the value goes to the console, recorded like a call.\<close>

definition console_log :: "jsval \<Rightarrow> world \<Rightarrow> world" where
  "console_log v w = w\<lparr>trace := trace w @ [ConsoleLog v]\<rparr>"

text \<open>
  Modelled from the spec: \<^verbatim>\<open>PrismaService\<close> (\<^verbatim>\<open>src/prisma/prisma.service\<close>) and the
  schema are not among the sources. The spec gives the store the operation
  \<^verbatim>\<open>findOne(identity, sessionCode) \<rightarrow> { roleLevel } | absent\<close>, the record matching
  exactly the pair.
\<close>

definition findUnique :: "string \<Rightarrow> string \<Rightarrow> world \<Rightarrow> AuthCode option \<times> world" where
  "findUnique i c w =
     (find (\<lambda>a. id' a = i \<and> authCode a = c) (authCodes w),
      w\<lparr>trace := trace w @ [FindUnique i c]\<rparr>)"

section \<open>The guard\<close>

text \<open>
  What \<^verbatim>\<open>canActivate\<close> reads of its execution context: the metadata of the handler
  (\<^verbatim>\<open>undefined\<close> when the handler carries no \<^verbatim>\<open>Roles\<close> decorator) and the two fields
  of \<^verbatim>\<open>request.user\<close>.
\<close>

record request =
  rolesLevel :: "int list option"
  user_id :: string
  auth_code :: string

datatype error = UnauthorizedException string

definition AuthenticationError :: error where
  "AuthenticationError = UnauthorizedException ''Invalid authentication''"

definition AuthorizationError :: error where
  "AuthorizationError = UnauthorizedException ''Insufficient permissions''"

text \<open>The template literal \<^verbatim>\<open>`role_${id}_${authCode}`\<close>.\<close>

definition cacheKey :: "string \<Rightarrow> string \<Rightarrow> string" where
  "cacheKey i c = ''role_'' @ i @ ''_'' @ c"

definition canActivate :: "request \<Rightarrow> world \<Rightarrow> (error + bool) \<times> world" where
  "canActivate req w =
     (case rolesLevel req of
        None \<Rightarrow> (Inr True, w)
      | Some levels \<Rightarrow>
          (let minRoleLevel = Math_min levels;
               key = cacheKey (user_id req) (auth_code req);
               (cachedRole, w1) = client_get key w;
               w2 = console_log cachedRole w1
           in if js_not cachedRole then
                (case findUnique (user_id req) (auth_code req) w2 of
                   (None, w3) \<Rightarrow> (Inl (UnauthorizedException ''Invalid authentication''), w3)
                 | (Some auth, w3) \<Rightarrow>
                     (let w4 = RedisService_set key (roleLevel auth) w3;
                          cachedRole' = JNumber (roleLevel auth)
                      in if js_lt (Number cachedRole') minRoleLevel
                         then (Inl (UnauthorizedException ''Insufficient permissions''), w4)
                         else (Inr True, w4)))
              else if js_lt (Number cachedRole) minRoleLevel
                   then (Inl (UnauthorizedException ''Insufficient permissions''), w2)
                   else (Inr True, w2)))"

subsection \<open>The guard as a sequence of steps\<close>

text \<open>
  \<^verbatim>\<open>canActivate\<close> is an \<^verbatim>\<open>async\<close> function: it suspends at each \<^verbatim>\<open>await\<close> and resumes
  with the answer. A configuration is a point of the function between two suspensions,
  with the local variables that are live there (\<^verbatim>\<open>minRoleLevel\<close>, \<^verbatim>\<open>cacheKey\<close>,
  \<^verbatim>\<open>cachedRole\<close>, \<^verbatim>\<open>auth\<close>) and the world; \<open>Done\<close> holds the value returned or the
  exception thrown.
\<close>

datatype config =
    Start request world
  | AwaitGet request jsnum string world
  | Got request jsnum string jsval world
  | AwaitFind request jsnum string world
  | AwaitSet jsnum string AuthCode world
  | Check jsnum jsval world
  | Done "error + bool" world

text \<open>
  One step of the guard run on its own, with no step of another request in between:
  the early return or the computation of the minimum and the key (lines 22 to 35), the
  read of the cache (36, 37), the console output and the test of \<^verbatim>\<open>!cachedRole\<close> (38,
  40), the read of the store and the test of \<^verbatim>\<open>!auth\<close> (41 to 50), the write of the
  cache (52 to 55), the comparison (58 to 62).
\<close>

inductive step :: "config \<Rightarrow> config \<Rightarrow> bool" where
  no_roles: "rolesLevel req = None \<Longrightarrow> step (Start req w) (Done (Inr True) w)"
| roles: "rolesLevel req = Some levels \<Longrightarrow>
     step (Start req w)
          (AwaitGet req (Math_min levels) (cacheKey (user_id req) (auth_code req)) w)"
| get: "client_get key w = (cachedRole, w1) \<Longrightarrow>
     step (AwaitGet req m key w) (Got req m key cachedRole w1)"
| miss: "js_not cachedRole \<Longrightarrow>
     step (Got req m key cachedRole w) (AwaitFind req m key (console_log cachedRole w))"
| hit: "\<not> js_not cachedRole \<Longrightarrow>
     step (Got req m key cachedRole w) (Check m cachedRole (console_log cachedRole w))"
| no_auth: "findUnique (user_id req) (auth_code req) w = (None, w3) \<Longrightarrow>
     step (AwaitFind req m key w)
          (Done (Inl (UnauthorizedException ''Invalid authentication'')) w3)"
| auth: "findUnique (user_id req) (auth_code req) w = (Some a, w3) \<Longrightarrow>
     step (AwaitFind req m key w) (AwaitSet m key a w3)"
| set: "step (AwaitSet m key a w)
          (Check m (JNumber (roleLevel a)) (RedisService_set key (roleLevel a) w))"
| insufficient: "js_lt (Number cachedRole) m \<Longrightarrow>
     step (Check m cachedRole w)
          (Done (Inl (UnauthorizedException ''Insufficient permissions'')) w)"
| allow: "\<not> js_lt (Number cachedRole) m \<Longrightarrow>
     step (Check m cachedRole w) (Done (Inr True) w)"

code_pred step .


section \<open>Example requests and worlds\<close>

text \<open>
  Concrete inputs for the instances below: one user \<open>u1\<close> with session code \<open>c1\<close>, a
  handler with several levels, one with the single level 1, one with an empty list of
  levels and one without the decorator.
\<close>

definition req_admin :: request where
  "req_admin = \<lparr>rolesLevel = Some [3, 1, 5], user_id = ''u1'', auth_code = ''c1''\<rparr>"

definition req_public :: request where
  "req_public = \<lparr>rolesLevel = None, user_id = ''u1'', auth_code = ''c1''\<rparr>"

definition req_empty :: request where
  "req_empty = \<lparr>rolesLevel = Some [], user_id = ''u1'', auth_code = ''c1''\<rparr>"

definition req_min1 :: request where
  "req_min1 = \<lparr>rolesLevel = Some [1], user_id = ''u1'', auth_code = ''c1''\<rparr>"

text \<open>An empty cache and the one row \<open>(u1, c1)\<close> with role level \<open>r\<close>.\<close>

definition world_cold :: "int \<Rightarrow> world" where
  "world_cold r = \<lparr>redis = [], authCodes = [\<lparr>id' = ''u1'', authCode = ''c1'', roleLevel = r\<rparr>],
     trace = []\<rparr>"

text \<open>
  No row for \<open>(u1, c1)\<close>: the same user with another session code, another user, and a
  cache entry of that other user.
\<close>

definition world_other_pair :: world where
  "world_other_pair = \<lparr>redis = [(''role_u2_c2'', ''1'')],
     authCodes = [\<lparr>id' = ''u1'', authCode = ''c9'', roleLevel = 1\<rparr>,
                  \<lparr>id' = ''u2'', authCode = ''c2'', roleLevel = 1\<rparr>],
     trace = []\<rparr>"



text \<open>
  A warm cache: the text \<open>s\<close> under the key of \<open>(u1, c1)\<close>, and no row in the store.
\<close>

definition world_warm :: "string \<Rightarrow> world" where
  "world_warm s = \<lparr>redis = [(''role_u1_c1'', s)], authCodes = [], trace = []\<rparr>"

section \<open>Facts about the number layer\<close>

subsection \<open>Integers below \<open>2^53\<close> are doubles\<close>

lemma bitlen_le: "n < 2 ^ k \<Longrightarrow> bitlen n \<le> k"
proof (induction n arbitrary: k rule: bitlen.induct)
  case (1 n)
  show ?case
  proof (cases "n = 0")
    case True then show ?thesis by (simp add: bitlen.simps)
  next
    case False
    with 1(2) obtain j where k: "k = Suc j" by (cases k) auto
    from 1(2) k have "n div 2 < 2 ^ j" by auto
    from 1(1)[OF False this] show ?thesis using False k by (subst bitlen.simps) simp
  qed
qed

lemma bitlen_pos: "0 < n \<Longrightarrow> 0 < bitlen n"
  by (subst bitlen.simps) simp

lemma round_half_even_int: "round_half_even (of_int z) = z"
  by (simp add: round_half_even_def)

lemma ilog2_of_nat_bounds:
  assumes "0 < k" "k < 2 ^ 53"
  shows "ilog2 (of_nat k) \<le> 52" "- 1 \<le> ilog2 (of_nat k)"
proof -
  have q: "quotient_of (of_nat k :: rat) = (int k, 1)"
    using quotient_of_int [of "int k"] by simp
  have b1: "bitlen (Suc 0) = 1" by (simp add: bitlen.simps)
  have "bitlen k \<le> 53" using bitlen_le [OF assms(2)] .
  moreover have "0 < bitlen k" using bitlen_pos [OF assms(1)] .
  ultimately show "ilog2 (of_nat k) \<le> 52" "- 1 \<le> ilog2 (of_nat k)"
    by (auto simp: ilog2_def q b1 Let_def)
qed

lemma pow2_nonpos: "e \<le> 0 \<Longrightarrow> pow2 e = 1 / 2 ^ nat (- e)"
  by (auto simp: pow2_def)

lemma to_double_exact:
  assumes kpos: "0 < k" and klt: "k < 2 ^ 53" and ab: "\<bar>q\<bar> = of_nat k"
  shows "to_double q = Fin (sgn q * of_nat k)"
proof -
  define e where "e = max (ilog2 (of_nat k) - 52) (- 1074)"
  have e: "e \<le> 0" "- 1074 \<le> e"
    using ilog2_of_nat_bounds [OF kpos klt] by (auto simp: e_def)
  have p: "pow2 e = 1 / 2 ^ nat (- e)" using e(1) by (rule pow2_nonpos)
  have d: "(of_nat k :: rat) / pow2 e = of_int (int k * 2 ^ nat (- e))"
    by (simp add: p)
  have m: "round_half_even (of_nat k / pow2 e) = int k * 2 ^ nat (- e)"
    unfolding d by (rule round_half_even_int)
  have v: "of_int (int k * 2 ^ nat (- e)) * pow2 e = (of_nat k :: rat)"
    by (simp add: p)
  have nz: "q \<noteq> 0" using kpos ab by auto
  show ?thesis
    unfolding to_double_def Let_def ab e_def [symmetric] m v
    using nz e by simp
qed

lemma to_double_of_int:
  assumes "\<bar>n\<bar> < 2 ^ 53"
  shows "to_double (of_int n) = Fin (of_int n)"
proof (cases "n = 0")
  case True then show ?thesis by (simp add: to_double_def)
next
  case False
  have k: "0 < nat \<bar>n\<bar>" using False by simp
  have l: "nat \<bar>n\<bar> < 2 ^ 53" using assms by (simp add: nat_less_iff)
  have a: "\<bar>of_int n :: rat\<bar> = of_nat (nat \<bar>n\<bar>)" by simp
  have s: "sgn (of_int n :: rat) * of_nat (nat \<bar>n\<bar>) = of_int n"
    by (cases "0 \<le> n") (simp_all add: sgn_if)
  show ?thesis using to_double_exact [OF k l a] by (simp only: s)
qed

lemma foldl_js_min2_Fin:
  "foldl js_min2 (Fin (of_int a)) (map (\<lambda>x. Fin (of_int x)) xs) = Fin (of_int (Min (insert a (set xs))))"
proof (induction xs arbitrary: a)
  case Nil then show ?case by simp
next
  case (Cons x xs)
  have step: "js_min2 (Fin (of_int a)) (Fin (of_int x)) = Fin (of_int (min a x))"
    by (simp add: min_def)
  have "Min (insert (min a x) (set xs)) = Min (insert a (insert x (set xs)))"
    by (cases "xs = []") (simp_all add: min.assoc)
  then show ?case using Cons.IH [of "min a x"] step by simp
qed

lemma Math_min_nonempty: "xs \<noteq> [] \<Longrightarrow> Math_min xs = Fin (of_int (Min (set xs)))"
  by (cases xs) (simp_all add: Math_min_def foldl_js_min2_Fin)

subsection \<open>Reading back the decimal text of an integer\<close>

lemma is_dec_iff: "is_dec c \<longleftrightarrow> c \<in> set ''0123456789''"
  by (simp add: is_dec_def digit_in_def hex_val_def)

lemma digit_in_digit_char: "d < 10 \<Longrightarrow> digit_in 10 (digit_char d) = Some d"
proof -
  assume "d < 10"
  then have "d \<in> {0, 1, 2, 3, 4, 5, 6, 7, 8, 9}" by auto
  then show ?thesis
    by (auto simp: digit_char_def digit_in_def hex_val_def)
qed

lemma is_dec_digit_char: "d < 10 \<Longrightarrow> is_dec (digit_char d)"
  by (simp add: is_dec_def digit_in_digit_char)

lemma digits_val_append:
  "digits_val b (xs @ ys) acc =
     (case digits_val b xs acc of None \<Rightarrow> None | Some a \<Rightarrow> digits_val b ys a)"
  by (induction xs arbitrary: acc) (auto split: option.splits)

lemma digits_val_nat_text: "digits_val 10 (nat_text n) 0 = Some n"
proof (induction n rule: nat_text.induct)
  case (1 n)
  show ?case
  proof (cases "n < 10")
    case True
    then show ?thesis by (subst nat_text.simps) (simp add: digit_in_digit_char)
  next
    case False
    have m: "n mod 10 < 10" by simp
    show ?thesis using 1 [OF False] False
      by (subst nat_text.simps) (simp add: digits_val_append digit_in_digit_char [OF m])
  qed
qed

lemma nat_text_dec: "c \<in> set (nat_text n) \<Longrightarrow> is_dec c"
proof (induction n rule: nat_text.induct)
  case (1 n)
  show ?case
  proof (cases "n < 10")
    case True
    with 1(2) show ?thesis by (subst (asm) nat_text.simps) (simp add: is_dec_digit_char)
  next
    case False
    have m: "n mod 10 < 10" by simp
    from 1(2) False have "c \<in> set (nat_text (n div 10)) \<or> c = digit_char (n mod 10)"
      by (subst (asm) nat_text.simps) auto
    then show ?thesis using 1(1) [OF False] is_dec_digit_char [OF m] by auto
  qed
qed

lemma nat_text_nonempty: "nat_text n \<noteq> []"
  by (subst nat_text.simps) simp

lemma is_dec_not_ws: "is_dec c \<Longrightarrow> \<not> StrWhiteSpaceChar c"
  by (auto simp: is_dec_iff StrWhiteSpaceChar_def)

lemma trim_id: "s \<noteq> [] \<Longrightarrow> \<not> StrWhiteSpaceChar (hd s) \<Longrightarrow> \<not> StrWhiteSpaceChar (last s) \<Longrightarrow> trim s = s"
proof -
  assume a: "s \<noteq> []" "\<not> StrWhiteSpaceChar (hd s)" "\<not> StrWhiteSpaceChar (last s)"
  have 1: "dropWhile StrWhiteSpaceChar s = s" using a(1,2) by (cases s) auto
  have 2: "dropWhile StrWhiteSpaceChar (rev s) = rev s"
    using a(1,3) by (cases "rev s") (auto simp: hd_rev [symmetric])
  show ?thesis by (simp add: trim_def 1 2)
qed

lemma trim_int_text: "trim (int_text n) = int_text n"
proof (rule trim_id)
  show "int_text n \<noteq> []" by (simp add: int_text_def nat_text_nonempty)
  show "\<not> StrWhiteSpaceChar (hd (int_text n))"
    using nat_text_dec [of "hd (nat_text (nat n))" "nat n"] nat_text_nonempty [of "nat n"]
    by (auto simp: int_text_def StrWhiteSpaceChar_def dest: is_dec_not_ws)
  show "\<not> StrWhiteSpaceChar (last (int_text n))"
    using nat_text_dec [of "last (nat_text (nat n))" "nat n"] nat_text_nonempty [of "nat n"]
          nat_text_dec [of "last (nat_text (nat (- n)))" "nat (- n)"] nat_text_nonempty [of "nat (- n)"]
    by (auto simp: int_text_def dest: is_dec_not_ws)
qed

lemma NonDecimal_nat_text: "NonDecimalIntegerLiteral (nat_text k) = None"
proof (cases "nat_text k")
  case Nil then show ?thesis by (simp add: NonDecimalIntegerLiteral_def)
next
  case (Cons z r)
  show ?thesis
  proof (cases r)
    case Nil with Cons show ?thesis by (simp add: NonDecimalIntegerLiteral_def)
  next
    case (Cons p ds)
    with \<open>nat_text k = z # r\<close> have "is_dec p" using nat_text_dec [of p k] by simp
    then have "p \<in> set ''0123456789''" by (simp only: is_dec_iff)
    then show ?thesis using Cons \<open>nat_text k = z # r\<close>
      by (auto simp: NonDecimalIntegerLiteral_def)
  qed
qed

lemma NonDecimal_int_text: "NonDecimalIntegerLiteral (int_text n) = None"
proof (cases "n < 0")
  case True
  then show ?thesis by (simp add: int_text_def NonDecimalIntegerLiteral_def split: list.splits)
next
  case False
  then show ?thesis by (simp add: int_text_def NonDecimal_nat_text)
qed

lemma Unsigned_nat_text: "StrUnsignedDecimalLiteral (nat_text k) = Some (of_nat k)"
proof -
  have t: "takeWhile is_dec (nat_text k) = nat_text k"
    by (simp add: nat_text_dec)
  have d: "dropWhile is_dec (nat_text k) = []"
    by (simp add: nat_text_dec)
  show ?thesis
    by (simp add: StrUnsignedDecimalLiteral_def t d nat_text_nonempty digits_val_nat_text
        ExponentPart_def)
qed

lemma nat_text_not_Infinity: "nat_text k \<noteq> ''Infinity''"
proof
  assume "nat_text k = ''Infinity''"
  then have "CHR ''I'' \<in> set (nat_text k)" by simp
  then have "is_dec (CHR ''I'')" by (rule nat_text_dec)
  then show False by (simp add: is_dec_iff)
qed

lemma hd_nat_text_dec: "is_dec (hd (nat_text k))"
  using nat_text_dec [of "hd (nat_text k)" k] nat_text_nonempty [of k] by simp

lemma StrDecimalLiteral_int_text: "StrDecimalLiteral (int_text n) = to_double (of_int n)"
proof (cases "n < 0")
  case True
  then have "(of_int n :: rat) = - of_nat (nat (- n))" by simp
  then show ?thesis using True
    by (simp add: StrDecimalLiteral_def int_text_def nat_text_not_Infinity Unsigned_nat_text
        del: of_nat_nat)
next
  case False
  have h: "hd (nat_text (nat n)) \<noteq> CHR ''-''" "hd (nat_text (nat n)) \<noteq> CHR ''+''"
    using hd_nat_text_dec [of "nat n"] by (auto simp: is_dec_iff)
  have "(of_int n :: rat) = of_nat (nat n)" using False by simp
  then show ?thesis using False h
    by (simp add: StrDecimalLiteral_def int_text_def nat_text_not_Infinity Unsigned_nat_text
        nat_text_nonempty del: of_nat_nat)
qed

lemma int_text_nonempty: "int_text n \<noteq> []"
  by (simp add: int_text_def nat_text_nonempty)

lemma StringToNumber_int_text:
  "\<bar>n\<bar> < 2 ^ 53 \<Longrightarrow> StringToNumber (int_text n) = Fin (of_int n)"
  by (simp add: StringToNumber_def trim_int_text NonDecimal_int_text
      StrDecimalLiteral_int_text to_double_of_int int_text_nonempty)

section \<open>The paths through the guard\<close>

lemma canActivate_absent: "rolesLevel req = None \<Longrightarrow> canActivate req w = (Inr True, w)"
  by (simp add: canActivate_def)

lemma canActivate_hit:
  assumes "rolesLevel req = Some ls"
    and "map_of (redis w) (cacheKey (user_id req) (auth_code req)) = Some s"
    and "s \<noteq> []"
  shows "canActivate req w =
     ((if js_lt (StringToNumber s) (Math_min ls) then Inl AuthorizationError else Inr True),
      w\<lparr>trace := trace w @ [RedisGet (cacheKey (user_id req) (auth_code req)),
                               ConsoleLog (JString s)]\<rparr>)"
  using assms
  by (simp add: canActivate_def client_get_def console_log_def AuthorizationError_def)

lemma findUnique_trace [simp]:
  "fst (findUnique i c (w\<lparr>trace := t\<rparr>)) = fst (findUnique i c w)"
  by (simp add: findUnique_def)

lemma canActivate_miss_absent:
  assumes "rolesLevel req = Some ls"
    and "js_not (fst (client_get (cacheKey (user_id req) (auth_code req)) w))"
    and "fst (findUnique (user_id req) (auth_code req) w) = None"
  shows "canActivate req w =
     (Inl AuthenticationError,
      w\<lparr>trace := trace w @ [RedisGet (cacheKey (user_id req) (auth_code req)),
                               ConsoleLog (fst (client_get (cacheKey (user_id req) (auth_code req)) w)),
                               FindUnique (user_id req) (auth_code req)]\<rparr>)"
  using assms
  by (simp add: canActivate_def client_get_def console_log_def findUnique_def
      AuthenticationError_def split: option.splits)

lemma canActivate_miss_present:
  assumes "rolesLevel req = Some ls"
    and "js_not (fst (client_get (cacheKey (user_id req) (auth_code req)) w))"
    and "fst (findUnique (user_id req) (auth_code req) w) = Some a"
  shows "canActivate req w =
     ((if js_lt (Fin (of_int (roleLevel a))) (Math_min ls)
       then Inl AuthorizationError else Inr True),
      w\<lparr>redis := AList.update (cacheKey (user_id req) (auth_code req))
                   (int_text (roleLevel a)) (redis w),
        trace := trace w @ [RedisGet (cacheKey (user_id req) (auth_code req)),
                               ConsoleLog (fst (client_get (cacheKey (user_id req) (auth_code req)) w)),
                               FindUnique (user_id req) (auth_code req),
                               RedisSet (cacheKey (user_id req) (auth_code req))
                                 (int_text (roleLevel a))]\<rparr>)"
  using assms
  by (simp add: canActivate_def client_get_def console_log_def findUnique_def
      RedisService_set_def AuthorizationError_def Let_def split: option.splits)

lemma js_not_client_get:
  "js_not (fst (client_get k w)) \<longleftrightarrow> map_of (redis w) k = None \<or> map_of (redis w) k = Some []"
  by (simp add: client_get_def split: option.splits)

section \<open>Runs of the guard\<close>







section \<open>The claims\<close>

subsection \<open>The minimum of the required levels\<close>

text \<open>
  Claim C7. For a non-empty list of required levels, the number \<^verbatim>\<open>minRoleLevel\<close> that
  the guard compares against, \<^verbatim>\<open>Math.min(...rolesLevel)\<close>, is the least element of
  the list; for the levels 3, 1, 5 it is 1. The decision of the guard is the comparison
  of the effective role level with that least element: on a hit, of \<^verbatim>\<open>Number\<close> of the
  cached text; on a miss with a row in the store, of the row's role level, so that the
  guard denies exactly when the role level is below every required level. The guard
  behaves as it would with the least element as the only required level.
\<close>

theorem Math_min_is_minimum:
  assumes "ls \<noteq> []" and "rolesLevel req = Some ls"
  shows "Math_min ls = Fin (of_int (Min (set ls)))
       \<and> (\<forall>s. map_of (redis w) (cacheKey (user_id req) (auth_code req)) = Some s \<and> s \<noteq> [] \<longrightarrow>
              fst (canActivate req w) =
                (if js_lt (StringToNumber s) (Fin (of_int (Min (set ls))))
                 then Inl AuthorizationError else Inr True))
       \<and> (\<forall>a. js_not (fst (client_get (cacheKey (user_id req) (auth_code req)) w)) \<and>
               fst (findUnique (user_id req) (auth_code req) w) = Some a \<longrightarrow>
              fst (canActivate req w) =
                (if roleLevel a < Min (set ls) then Inl AuthorizationError else Inr True) \<and>
              (fst (canActivate req w) = Inl AuthorizationError \<longleftrightarrow>
                 (\<forall>x\<in>set ls. roleLevel a < x)))
       \<and> canActivate req w = canActivate (req\<lparr>rolesLevel := Some [Min (set ls)]\<rparr>) w"
proof (intro conjI allI impI)
  show m: "Math_min ls = Fin (of_int (Min (set ls)))"
    using assms(1) by (rule Math_min_nonempty)
  have s: "Math_min [Min (set ls)] = Fin (of_int (Min (set ls)))"
    by (simp add: Math_min_nonempty)
  show "canActivate req w = canActivate (req\<lparr>rolesLevel := Some [Min (set ls)]\<rparr>) w"
    using assms(2) by (auto simp: canActivate_def m s Let_def split: prod.splits option.splits)
  {
    fix s
    assume h: "map_of (redis w) (cacheKey (user_id req) (auth_code req)) = Some s \<and> s \<noteq> []"
    show "fst (canActivate req w) =
        (if js_lt (StringToNumber s) (Fin (of_int (Min (set ls))))
         then Inl AuthorizationError else Inr True)"
      using canActivate_hit [OF assms(2), of w s] h by (simp add: m)
  }
  {
    fix a
    assume h: "js_not (fst (client_get (cacheKey (user_id req) (auth_code req)) w)) \<and>
               fst (findUnique (user_id req) (auth_code req) w) = Some a"
    show d: "fst (canActivate req w) =
        (if roleLevel a < Min (set ls) then Inl AuthorizationError else Inr True)"
      using canActivate_miss_present [OF assms(2), of w a] h by (simp add: m)
    have "roleLevel a < Min (set ls) \<longleftrightarrow> (\<forall>x\<in>set ls. roleLevel a < x)"
      using assms(1) by simp
    then show "fst (canActivate req w) = Inl AuthorizationError \<longleftrightarrow>
        (\<forall>x\<in>set ls. roleLevel a < x)"
      unfolding d by simp
  }
qed

theorem Math_min_is_minimum_witness:
  "[3, 1, 5] \<noteq> ([] :: int list) \<and> rolesLevel req_admin = Some [3, 1, 5] \<and>
   Math_min [3, 1, 5] = Fin 1 \<and>
   fst (canActivate req_admin (world_cold 1)) = Inr True \<and>
   fst (canActivate req_admin (world_cold 0)) = Inl AuthorizationError \<and>
   fst (canActivate req_admin (world_warm ''1'')) = Inr True \<and>
   fst (canActivate req_admin (world_warm ''0'')) = Inl AuthorizationError \<and>
   canActivate req_admin (world_cold 0) = canActivate req_min1 (world_cold 0)"
proof -
  have n: "[3, 1, 5] \<noteq> ([] :: int list)" by simp
  have r: "rolesLevel req_admin = Some [3, 1, 5]" by (simp add: req_admin_def)
  have e: "req_admin\<lparr>rolesLevel := Some [1]\<rparr> = req_min1"
    by (simp add: req_admin_def req_min1_def)
  have t1: "StringToNumber ''1'' = Fin 1"
    using StringToNumber_int_text [of 1]
    by (simp add: int_text_def nat_text.simps digit_char_def)
  have t0: "StringToNumber ''0'' = Fin 0"
    using StringToNumber_int_text [of 0]
    by (simp add: int_text_def nat_text.simps digit_char_def)
  have k: "map_of (redis (world_warm s)) (cacheKey (user_id req_admin) (auth_code req_admin)) =
      Some s" for s
    by (simp add: world_warm_def req_admin_def cacheKey_def)
  have cold: "js_not (fst (client_get (cacheKey (user_id req_admin) (auth_code req_admin))
      (world_cold x)))" for x
    by (simp add: client_get_def world_cold_def)
  have f: "fst (findUnique (user_id req_admin) (auth_code req_admin) (world_cold x)) =
      Some \<lparr>id' = ''u1'', authCode = ''c1'', roleLevel = x\<rparr>" for x
    by (simp add: findUnique_def world_cold_def req_admin_def)
  have A0: "Math_min [3, 1, 5] = Fin (of_int (Min (set [3, 1, 5])))"
    using Math_min_is_minimum [OF n r] by blast
  have A1: "fst (canActivate req_admin w) =
      (if roleLevel a < Min (set [3, 1, 5]) then Inl AuthorizationError else Inr True)"
    if "js_not (fst (client_get (cacheKey (user_id req_admin) (auth_code req_admin)) w))"
      and "fst (findUnique (user_id req_admin) (auth_code req_admin) w) = Some a" for w a
    using Math_min_is_minimum [OF n r, of w] that by blast
  have A2: "fst (canActivate req_admin w) =
      (if js_lt (StringToNumber s) (Fin (of_int (Min (set [3, 1, 5]))))
       then Inl AuthorizationError else Inr True)"
    if "map_of (redis w) (cacheKey (user_id req_admin) (auth_code req_admin)) = Some s"
      and "s \<noteq> []" for w s
    using Math_min_is_minimum [OF n r, of w] that by blast
  have A3: "canActivate req_admin w =
      canActivate (req_admin\<lparr>rolesLevel := Some [Min (set [3, 1, 5])]\<rparr>) w" for w
    using Math_min_is_minimum [OF n r, of w] by blast
  have m: "Math_min [3, 1, 5] = Fin 1" using A0 by simp
  have c1: "fst (canActivate req_admin (world_cold 1)) = Inr True"
    using A1 [OF cold f, of 1] by simp
  have c0: "fst (canActivate req_admin (world_cold 0)) = Inl AuthorizationError"
    using A1 [OF cold f, of 0] by simp
  have h1: "fst (canActivate req_admin (world_warm ''1'')) = Inr True"
    using A2 [OF k, of "''1''"] by (simp add: t1)
  have h0: "fst (canActivate req_admin (world_warm ''0'')) = Inl AuthorizationError"
    using A2 [OF k, of "''0''"] by (simp add: t0)
  have i: "canActivate req_admin (world_cold 0) = canActivate req_min1 (world_cold 0)"
    using A3 [of "world_cold 0"] by (simp add: e)
  show ?thesis using n r m c1 c0 h1 h0 i by blast
qed

subsection \<open>The store is only read\<close>

text \<open>
  Claim C8. Whatever the request, the cache and the outcome, the table of the store
  after \<^verbatim>\<open>canActivate\<close> is the table before it.
\<close>

theorem store_unchanged: "authCodes (snd (canActivate req w)) = authCodes w"
  by (simp add: canActivate_def client_get_def console_log_def findUnique_def
      RedisService_set_def Let_def split: option.splits)

theorem store_unchanged_witness:
  "authCodes (snd (canActivate req_min1 (world_cold 5))) =
     [\<lparr>id' = ''u1'', authCode = ''c1'', roleLevel = 5\<rparr>]"
  using store_unchanged [of req_min1 "world_cold 5"] by (simp add: world_cold_def)

subsection \<open>Handlers without required levels\<close>

text \<open>
  Claim C2, as stated: a handler whose list of required levels is empty or absent is
  allowed unconditionally, without a look at the cache or the store. It fails for the
  empty list: \<^verbatim>\<open>![]\<close> is false, so the guard goes on, \<^verbatim>\<open>Math.min()\<close> is
  \<^verbatim>\<open>+Infinity\<close>, the store is asked, and the role level 5 is below \<^verbatim>\<open>+Infinity\<close>.
\<close>

theorem empty_levels_counterexample:
  "fst (canActivate req_empty (world_cold 5)) = Inl AuthorizationError \<and>
   FindUnique ''u1'' ''c1'' \<in> set (trace (snd (canActivate req_empty (world_cold 5))))"
  by (simp add: canActivate_def req_empty_def world_cold_def client_get_def console_log_def
      findUnique_def RedisService_set_def Let_def cacheKey_def Math_min_def
      AuthorizationError_def)

text \<open>
  Claim C2, amended: a handler without the decorator (absent required levels) is
  allowed unconditionally, and the world, with its record of collaborator calls, is
  left as it was: neither the cache nor the store is consulted.
\<close>

theorem absent_levels_allow:
  "rolesLevel req = None \<Longrightarrow> canActivate req w = (Inr True, w)"
  by (rule canActivate_absent)

theorem absent_levels_allow_witness:
  "rolesLevel req_public = None \<and>
   canActivate req_public (world_cold 5) = (Inr True, world_cold 5)"
  using absent_levels_allow [of req_public "world_cold 5"] by (simp add: req_public_def)

subsection \<open>The comparison with the minimum\<close>

text \<open>
  Claim C1, as stated: the guard fails with the authorization error exactly when the
  effective role level is strictly greater than the minimum, so that role level 5
  against the minimum 1 fails. The code compares the other way round
  (\<^verbatim>\<open>Number(cachedRole) < minRoleLevel\<close>): role level 5 against the minimum 1 is
  allowed.
\<close>

theorem role5_min1_counterexample:
  "fst (canActivate req_min1 (world_cold 5)) = Inr True"
  by (simp add: canActivate_def req_min1_def world_cold_def client_get_def console_log_def
      findUnique_def RedisService_set_def Let_def cacheKey_def Math_min_def)

text \<open>
  Claim C1, amended: for a non-empty list of required levels, the guard fails with the
  authorization error exactly when the effective role level is strictly less than the
  minimum, and allows otherwise (equal levels allow). On a hit the effective level is
  \<^verbatim>\<open>Number\<close> of the cached value; on a miss with a row in the store it is the row's
  role level.
\<close>

theorem denied_iff_below_minimum:
  assumes "rolesLevel req = Some ls" and "ls \<noteq> []"
  shows "(\<not> js_not (fst (client_get (cacheKey (user_id req) (auth_code req)) w)) \<longrightarrow>
            fst (canActivate req w) =
              (if js_lt (Number (fst (client_get (cacheKey (user_id req) (auth_code req)) w)))
                        (Fin (of_int (Min (set ls))))
               then Inl AuthorizationError else Inr True))
       \<and> (js_not (fst (client_get (cacheKey (user_id req) (auth_code req)) w)) \<longrightarrow>
            (\<forall>a. fst (findUnique (user_id req) (auth_code req) w) = Some a \<longrightarrow>
                 fst (canActivate req w) =
                   (if roleLevel a < Min (set ls) then Inl AuthorizationError else Inr True)))"
proof (intro conjI impI allI)
  assume h: "\<not> js_not (fst (client_get (cacheKey (user_id req) (auth_code req)) w))"
  then obtain s where s: "map_of (redis w) (cacheKey (user_id req) (auth_code req)) = Some s"
    "s \<noteq> []"
    by (auto simp: js_not_client_get)
  have g: "fst (client_get (cacheKey (user_id req) (auth_code req)) w) = JString s"
    by (simp add: client_get_def s)
  show "fst (canActivate req w) =
      (if js_lt (Number (fst (client_get (cacheKey (user_id req) (auth_code req)) w)))
                (Fin (of_int (Min (set ls))))
       then Inl AuthorizationError else Inr True)"
    by (simp add: canActivate_hit [OF assms(1) s] g Math_min_nonempty [OF assms(2)])
next
  fix a
  assume m: "js_not (fst (client_get (cacheKey (user_id req) (auth_code req)) w))"
    and f: "fst (findUnique (user_id req) (auth_code req) w) = Some a"
  show "fst (canActivate req w) =
      (if roleLevel a < Min (set ls) then Inl AuthorizationError else Inr True)"
    by (simp add: canActivate_miss_present [OF assms(1) m f] Math_min_nonempty [OF assms(2)])
qed

theorem denied_iff_below_minimum_witness:
  "rolesLevel req_admin = Some [3, 1, 5] \<and> [3, 1, 5] \<noteq> ([] :: int list) \<and>
   js_not (fst (client_get (cacheKey (user_id req_admin) (auth_code req_admin)) (world_cold 0))) \<and>
   fst (findUnique (user_id req_admin) (auth_code req_admin) (world_cold 0)) =
     Some \<lparr>id' = ''u1'', authCode = ''c1'', roleLevel = 0\<rparr> \<and>
   fst (canActivate req_admin (world_cold 0)) = Inl AuthorizationError \<and>
   fst (canActivate req_admin (world_cold 1)) = Inr True \<and>
   fst (canActivate req_admin (world_cold 2)) = Inr True \<and>
   \<not> js_not (fst (client_get (cacheKey (user_id req_admin) (auth_code req_admin))
                  (world_warm ''2''))) \<and>
   fst (canActivate req_admin (world_warm ''2'')) = Inr True \<and>
   fst (canActivate req_admin (world_warm ''0'')) = Inl AuthorizationError"
proof -
  have t2: "StringToNumber ''2'' = Fin 2"
    using StringToNumber_int_text [of 2]
    by (simp add: int_text_def nat_text.simps digit_char_def)
  have t0: "StringToNumber ''0'' = Fin 0"
    using StringToNumber_int_text [of 0]
    by (simp add: int_text_def nat_text.simps digit_char_def)
  have r: "rolesLevel req_admin = Some [3, 1, 5]" by (simp add: req_admin_def)
  have n: "[3, 1, 5] \<noteq> ([] :: int list)" by simp
  have g: "fst (client_get (cacheKey (user_id req_admin) (auth_code req_admin)) (world_warm s)) =
      JString s" for s
    by (simp add: client_get_def world_warm_def req_admin_def cacheKey_def)
  have cold: "js_not (fst (client_get (cacheKey (user_id req_admin) (auth_code req_admin))
      (world_cold x)))" for x
    by (simp add: client_get_def world_cold_def)
  have f: "fst (findUnique (user_id req_admin) (auth_code req_admin) (world_cold x)) =
      Some \<lparr>id' = ''u1'', authCode = ''c1'', roleLevel = x\<rparr>" for x
    by (simp add: findUnique_def world_cold_def req_admin_def)
  show ?thesis
    using denied_iff_below_minimum [OF r n, of "world_cold 0"]
          denied_iff_below_minimum [OF r n, of "world_cold 1"]
          denied_iff_below_minimum [OF r n, of "world_cold 2"]
          denied_iff_below_minimum [OF r n, of "world_warm ''2''"]
          denied_iff_below_minimum [OF r n, of "world_warm ''0''"]
    by (simp add: g t2 t0 cold f r)
qed

subsection \<open>A cached value that is no number\<close>




subsection \<open>No row in the store\<close>

text \<open>
  Claim C4. With a non-empty list of required levels, a miss in the cache and no row of
  the store matching exactly the pair of identity and session code, the guard fails with
  the authentication error, whatever else the cache and the store hold. In the instance
  the cache holds an entry of another pair and the store a row of the same user with
  another session code.
\<close>

theorem no_record_is_authentication_error:
  assumes "rolesLevel req = Some ls" and "ls \<noteq> []"
    and "js_not (fst (client_get (cacheKey (user_id req) (auth_code req)) w))"
    and "fst (findUnique (user_id req) (auth_code req) w) = None"
  shows "fst (canActivate req w) = Inl AuthenticationError"
  by (simp add: canActivate_miss_absent [OF assms(1,3,4)])

theorem no_record_is_authentication_error_witness:
  "rolesLevel req_min1 = Some [1] \<and> [1] \<noteq> ([] :: int list) \<and>
   js_not (fst (client_get (cacheKey (user_id req_min1) (auth_code req_min1)) world_other_pair)) \<and>
   fst (findUnique (user_id req_min1) (auth_code req_min1) world_other_pair) = None \<and>
   redis world_other_pair \<noteq> [] \<and>
   fst (canActivate req_min1 world_other_pair) = Inl AuthenticationError"
  using no_record_is_authentication_error [of req_min1 "[1]" world_other_pair]
  by (simp add: req_min1_def world_other_pair_def client_get_def findUnique_def cacheKey_def)

subsection \<open>The cache key\<close>

text \<open>
  Claim C5, as stated: two pairs of identity and session code that differ have
  different cache keys. The key joins the two with an underscore, so an underscore in
  the identity moves the boundary: \<open>(a_b, c)\<close> and \<open>(a, b_c)\<close> share the key
  \<^verbatim>\<open>role_a_b_c\<close>.
\<close>

theorem cacheKey_collision_counterexample:
  "cacheKey ''a_b'' ''c'' = cacheKey ''a'' ''b_c'' \<and> (''a_b'', ''c'') \<noteq> (''a'', ''b_c'')"
  by (simp add: cacheKey_def)

text \<open>
  Claim C5, amended: the key is a function of the pair (equal pairs give equal keys),
  and two pairs whose identities contain no underscore have equal keys only if they are
  equal.
\<close>

theorem cacheKey_injective_without_underscore:
  assumes "CHR ''_'' \<notin> set i1" and "CHR ''_'' \<notin> set i2"
  shows "cacheKey i1 c1 = cacheKey i2 c2 \<longleftrightarrow> i1 = i2 \<and> c1 = c2"
proof
  assume "cacheKey i1 c1 = cacheKey i2 c2"
  then have e: "i1 @ CHR ''_'' # c1 = i2 @ CHR ''_'' # c2" by (simp add: cacheKey_def)
  have "takeWhile (\<lambda>x. x \<noteq> CHR ''_'') (i1 @ CHR ''_'' # c1) = i1"
    using assms(1) by (auto simp: takeWhile_tail)
  moreover have "takeWhile (\<lambda>x. x \<noteq> CHR ''_'') (i2 @ CHR ''_'' # c2) = i2"
    using assms(2) by (auto simp: takeWhile_tail)
  ultimately have "i1 = i2" using e by simp
  with e show "i1 = i2 \<and> c1 = c2" by simp
next
  assume "i1 = i2 \<and> c1 = c2"
  then show "cacheKey i1 c1 = cacheKey i2 c2" by simp
qed

theorem cacheKey_injective_without_underscore_witness:
  "CHR ''_'' \<notin> set ''u1'' \<and> CHR ''_'' \<notin> set ''u2'' \<and>
   cacheKey ''u1'' ''c_1'' \<noteq> cacheKey ''u2'' ''c_1'' \<and>
   cacheKey ''u1'' ''c_1'' \<noteq> cacheKey ''u1'' ''c_2'' \<and>
   cacheKey ''u1'' ''c_1'' = ''role_u1_c_1''"
  using cacheKey_injective_without_underscore [of "''u1''" "''u2''" "''c_1''" "''c_1''"]
        cacheKey_injective_without_underscore [of "''u1''" "''u1''" "''c_1''" "''c_2''"]
  by (simp add: cacheKey_def)

subsection \<open>The authentication error and the cache\<close>

text \<open>
  Claim C9. When the guard fails with the authentication error, the cache after the
  call is the cache before it: the error is thrown before the write.
\<close>

theorem authentication_error_leaves_cache:
  "fst (canActivate req w) = Inl AuthenticationError \<Longrightarrow> redis (snd (canActivate req w)) = redis w"
  by (auto simp: canActivate_def client_get_def console_log_def findUnique_def
      RedisService_set_def Let_def AuthenticationError_def split: option.splits if_splits)

theorem authentication_error_leaves_cache_witness:
  "fst (canActivate req_min1 world_other_pair) = Inl AuthenticationError \<and>
   redis (snd (canActivate req_min1 world_other_pair)) = [(''role_u2_c2'', ''1'')]"
proof -
  have a: "fst (canActivate req_min1 world_other_pair) = Inl AuthenticationError"
    by (simp add: canActivate_def req_min1_def world_other_pair_def client_get_def
        console_log_def findUnique_def Let_def cacheKey_def AuthenticationError_def)
  show ?thesis
    using authentication_error_leaves_cache [OF a] a by (simp add: world_other_pair_def)
qed

subsection \<open>The second call is served from the cache\<close>

text \<open>
  Claim C6. Take a request with a non-empty list of required levels, a miss in the
  cache and a row in the store, and let the guard run once. Run it again on the
  resulting world with the same request, after the table of the store has been replaced
  by any other table \<open>rows\<close> (the row may be gone). The second call gives the decision
  of the first, and its record of calls is a read of the cache and the console output,
  with no call to the store. The role level is an integer that a JavaScript number
  holds exactly, of magnitude below \<open>2^53\<close>.
\<close>

theorem second_call_served_from_cache:
  assumes "rolesLevel req = Some ls" and "ls \<noteq> []"
    and "js_not (fst (client_get (cacheKey (user_id req) (auth_code req)) w))"
    and "fst (findUnique (user_id req) (auth_code req) w) = Some a"
    and "\<bar>roleLevel a\<bar> < 2 ^ 53"
  shows "fst (canActivate req (snd (canActivate req w)\<lparr>authCodes := rows\<rparr>)) =
           fst (canActivate req w)
       \<and> trace (snd (canActivate req (snd (canActivate req w)\<lparr>authCodes := rows\<rparr>))) =
           trace (snd (canActivate req w)) @
             [RedisGet (cacheKey (user_id req) (auth_code req)),
              ConsoleLog (JString (int_text (roleLevel a)))]"
proof -
  let ?k = "cacheKey (user_id req) (auth_code req)"
  let ?w1 = "snd (canActivate req w)\<lparr>authCodes := rows\<rparr>"
  have first: "canActivate req w =
     ((if js_lt (Fin (of_int (roleLevel a))) (Math_min ls)
       then Inl AuthorizationError else Inr True),
      w\<lparr>redis := AList.update ?k (int_text (roleLevel a)) (redis w),
        trace := trace w @ [RedisGet ?k, ConsoleLog (fst (client_get ?k w)),
                            FindUnique (user_id req) (auth_code req),
                            RedisSet ?k (int_text (roleLevel a))]\<rparr>)"
    by (rule canActivate_miss_present [OF assms(1,3,4)])
  have look: "map_of (redis ?w1) ?k = Some (int_text (roleLevel a))"
    by (simp add: first update_conv')
  have second: "canActivate req ?w1 =
     ((if js_lt (StringToNumber (int_text (roleLevel a))) (Math_min ls)
       then Inl AuthorizationError else Inr True),
      ?w1\<lparr>trace := trace ?w1 @ [RedisGet ?k, ConsoleLog (JString (int_text (roleLevel a)))]\<rparr>)"
    by (rule canActivate_hit [OF assms(1) look int_text_nonempty])
  have num: "StringToNumber (int_text (roleLevel a)) = Fin (of_int (roleLevel a))"
    by (rule StringToNumber_int_text [OF assms(5)])
  show ?thesis
    unfolding second num by (simp add: first)
qed

theorem second_call_served_from_cache_witness:
  "rolesLevel req_min1 = Some [1] \<and> [1] \<noteq> ([] :: int list) \<and>
   js_not (fst (client_get (cacheKey (user_id req_min1) (auth_code req_min1)) (world_cold 5))) \<and>
   fst (findUnique (user_id req_min1) (auth_code req_min1) (world_cold 5)) =
     Some \<lparr>id' = ''u1'', authCode = ''c1'', roleLevel = 5\<rparr> \<and>
   \<bar>5 :: int\<bar> < 2 ^ 53 \<and>
   fst (canActivate req_min1 (snd (canActivate req_min1 (world_cold 5))\<lparr>authCodes := []\<rparr>)) =
     Inr True \<and>
   trace (snd (canActivate req_min1 (snd (canActivate req_min1 (world_cold 5))\<lparr>authCodes := []\<rparr>))) =
     [RedisGet ''role_u1_c1'', ConsoleLog JNull, FindUnique ''u1'' ''c1'',
      RedisSet ''role_u1_c1'' ''5'', RedisGet ''role_u1_c1'', ConsoleLog (JString ''5'')]"
proof -
  have r: "rolesLevel req_min1 = Some [1]" by (simp add: req_min1_def)
  have n: "[1] \<noteq> ([] :: int list)" by simp
  have m: "js_not (fst (client_get (cacheKey (user_id req_min1) (auth_code req_min1)) (world_cold 5)))"
    by (simp add: client_get_def world_cold_def)
  have f: "fst (findUnique (user_id req_min1) (auth_code req_min1) (world_cold 5)) =
     Some \<lparr>id' = ''u1'', authCode = ''c1'', roleLevel = 5\<rparr>"
    by (simp add: findUnique_def world_cold_def req_min1_def)
  have b: "\<bar>roleLevel \<lparr>id' = ''u1'', authCode = ''c1'', roleLevel = 5\<rparr>\<bar> < 2 ^ 53" by simp
  have t: "int_text 5 = ''5''" by (simp add: int_text_def nat_text.simps digit_char_def)
  have c: "canActivate req_min1 (world_cold 5) =
      (Inr True,
       \<lparr>redis = [(''role_u1_c1'', ''5'')],
        authCodes = [\<lparr>id' = ''u1'', authCode = ''c1'', roleLevel = 5\<rparr>],
        trace = [RedisGet ''role_u1_c1'', ConsoleLog JNull, FindUnique ''u1'' ''c1'',
                 RedisSet ''role_u1_c1'' ''5'']\<rparr>)"
    by (simp add: canActivate_def req_min1_def world_cold_def client_get_def console_log_def
        findUnique_def RedisService_set_def Let_def cacheKey_def Math_min_def t)
  have k: "cacheKey (user_id req_min1) (auth_code req_min1) = ''role_u1_c1''"
    by (simp add: req_min1_def cacheKey_def)
  show ?thesis
    using second_call_served_from_cache [OF r n m f b, of "[]"] r m f
    by (simp add: c k t)
qed

subsection \<open>Two runs from the same cache and store\<close>



end
